theory Spec2Isabelle
  imports Complex_Main
begin

section \<open>The formant shifter of \<open>src/formant_shifter.py\<close>\<close>

text \<open>
  The class \<open>FormantShifter\<close> works on numpy arrays of float64 samples, modelled as
  reals. Where the code branches on a computed float (the frequencies of
  \<open>warp_magnitude\<close>, the sample indices of \<open>shift_formants_vowel\<close>) every float
  operation is followed by the rounding function \<open>fl\<close>, a parameter of the model about
  which nothing is assumed, so that what is proved holds for float64 rounding as well as
  for exact arithmetic (\<open>no_rounding\<close>). \<open>crossfade\<close> branches on lengths only; its
  sample arithmetic is exact. Where the floating-point code divides by zero (and goes on
  with an infinity or a NaN, which HOL's total division would hide) the outcome is
  written out as a branch of its own. Exceptions are values of the type \<open>error\<close>, on
  the left of a sum.
\<close>

subsection \<open>Python and numpy primitives\<close>

text \<open>
  The exceptions that the code can raise: the three built-in ones that numpy and \<open>int\<close>
  raise here, and librosa's ParameterError.
\<close>

datatype error = ValueError | IndexError | OverflowError | ParameterError

text \<open>Exact arithmetic: the rounding function that rounds nothing.\<close>

definition no_rounding :: "real \<Rightarrow> real" where
  "no_rounding x = x"

text \<open>
  A slice bound as Python adjusts it for a sequence of \<open>n\<close> elements: a negative bound
  counts from the end, and every bound is clamped into \<open>0..n\<close>. A missing bound is the
  start, respectively the end, of the sequence.
\<close>

definition slice_index :: "nat \<Rightarrow> int \<Rightarrow> nat" where
  "slice_index n i = (if i < 0 then nat (max 0 (int n + i)) else min n (nat i))"

definition slice_bounds :: "nat \<Rightarrow> int option \<Rightarrow> int option \<Rightarrow> nat \<times> nat" where
  "slice_bounds n start stop =
     ((case start of None \<Rightarrow> 0 | Some i \<Rightarrow> slice_index n i),
      (case stop of None \<Rightarrow> n | Some j \<Rightarrow> slice_index n j))"

definition py_slice :: "'a list \<Rightarrow> int option \<Rightarrow> int option \<Rightarrow> 'a list" where
  "py_slice xs start stop =
     (case slice_bounds (length xs) start stop of (a, b) \<Rightarrow> take (b - a) (drop a xs))"

text \<open>
  An elementwise operation of numpy on two one-dimensional arrays: equal shapes combine
  pointwise, a one-element array is broadcast over the other, any other pair of shapes
  raises ValueError.
\<close>

definition broadcast2 :: "(real \<Rightarrow> real \<Rightarrow> real) \<Rightarrow> real list \<Rightarrow> real list \<Rightarrow> error + real list" where
  "broadcast2 f xs ys =
     (if length xs = length ys then Inr (map2 f xs ys)
      else if length xs = 1 then Inr (map (f (hd xs)) ys)
      else if length ys = 1 then Inr (map (\<lambda>x. f x (hd ys)) xs)
      else Inl ValueError)"

definition np_mul :: "real list \<Rightarrow> real list \<Rightarrow> error + real list" where
  "np_mul = broadcast2 (*)"

definition np_add :: "error + real list \<Rightarrow> error + real list \<Rightarrow> error + real list" where
  "np_add a b =
     (case a of Inl e \<Rightarrow> Inl e
      | Inr xs \<Rightarrow> (case b of Inl e \<Rightarrow> Inl e | Inr ys \<Rightarrow> broadcast2 (+) xs ys))"

text \<open>
  The slice assignment \<open>xs[start:stop] = v\<close> of numpy: the value must have the shape of
  the slice or one element (which is then broadcast); the array keeps its length.
\<close>

definition set_slice :: "real list \<Rightarrow> int option \<Rightarrow> int option \<Rightarrow> real list \<Rightarrow> error + real list" where
  "set_slice xs start stop v =
     (case slice_bounds (length xs) start stop of (a, b) \<Rightarrow>
        if length v = b - a then Inr (take a xs @ v @ drop (a + (b - a)) xs)
        else if length v = 1 then Inr (take a xs @ replicate (b - a) (hd v) @ drop (a + (b - a)) xs)
        else Inl ValueError)"

text \<open>\<open>np.arange(start, stop, step)\<close> on integers, for a positive step.\<close>

definition arange :: "int \<Rightarrow> int \<Rightarrow> int \<Rightarrow> int list" where
  "arange start stop step =
     map (\<lambda>k. start + int k * step) [0..<nat (- ((start - stop) div step))]"

text \<open>
  \<open>np.hanning(M)\<close>, as numpy defines it: empty for \<open>M < 1\<close>, \<open>[1.]\<close> for \<open>M = 1\<close>, and
  otherwise \<open>0.5 + 0.5 * cos(pi * n / (M - 1))\<close> for \<open>n\<close> in \<open>arange(1 - M, M, 2)\<close>.
\<close>

definition hanning :: "int \<Rightarrow> real list" where
  "hanning M =
     (if M < 1 then []
      else if M = 1 then [1]
      else map (\<lambda>n. 0.5 + 0.5 * cos (pi * real_of_int n / real_of_int (M - 1)))
               (arange (1 - M) M 2))"

subsection \<open>Arrays in a store\<close>

text \<open>
  numpy arrays are mutable objects, and \<open>crossfade\<close> writes into one. The store is the
  list of the one-dimensional arrays allocated so far; a reference is a position in it.
  Allocation appends, so a fresh reference is the length of the store.
\<close>

type_synonym heap = "real list list"
type_synonym ref = nat

text \<open>
  One assignment statement \<open>out[start:stop] = rhs\<close>: the right-hand side is evaluated
  first and may raise; then the assignment may raise. An exception leaves the store as
  it is.
\<close>

definition store_slice ::
  "heap \<Rightarrow> ref \<Rightarrow> int option \<Rightarrow> int option \<Rightarrow> error + real list \<Rightarrow> (error + unit) \<times> heap" where
  "store_slice h r start stop rhs =
     (case rhs of Inl e \<Rightarrow> (Inl e, h)
      | Inr v \<Rightarrow> (case set_slice (h ! r) start stop v of
                   Inl e \<Rightarrow> (Inl e, h)
                 | Inr xs \<Rightarrow> (Inr (), h[r := xs])))"

text \<open>Sequencing of statements: an exception skips the rest.\<close>

definition and_then ::
  "(error + unit) \<times> heap \<Rightarrow> (heap \<Rightarrow> (error + 'a) \<times> heap) \<Rightarrow> (error + 'a) \<times> heap" where
  "and_then m k = (case m of (Inl e, h) \<Rightarrow> (Inl e, h) | (Inr u, h) \<Rightarrow> k h)"

subsection \<open>crossfade\<close>

text \<open>
  \<^verbatim>\<open>
  def crossfade(self, original, shifted, fade_len):
      fade_len = min(fade_len, len(original) // 2)
      window = np.hanning(fade_len * 2)
      fade_in = window[:fade_len]
      fade_out = window[fade_len:]
      out = original.copy()
      out[:fade_len] = (original[:fade_len] * fade_out + shifted[:fade_len] * fade_in)
      out[fade_len:-fade_len] = shifted[fade_len:-fade_len]
      out[-fade_len:] = (shifted[-fade_len:] * fade_out + original[-fade_len:] * fade_in)
      return out
  \<close>
  \<open>original\<close> and \<open>shifted\<close> are references into the store (they may be the same
  array); the result is the reference of the new array \<open>out\<close> and the store after the
  call, or the exception and the store at the moment it was raised.
\<close>

definition crossfade :: "heap \<Rightarrow> ref \<Rightarrow> ref \<Rightarrow> int \<Rightarrow> (error + ref) \<times> heap" where
  "crossfade h original shifted fade_length =
     (let fade_len = min fade_length (int (length (h ! original)) div 2);
          window = hanning (fade_len * 2);
          fade_in = py_slice window None (Some fade_len);
          fade_out = py_slice window (Some fade_len) None;
          out = length h;
          h0 = h @ [h ! original]
      in and_then
           (store_slice h0 out None (Some fade_len)
              (np_add (np_mul (py_slice (h0 ! original) None (Some fade_len)) fade_out)
                      (np_mul (py_slice (h0 ! shifted) None (Some fade_len)) fade_in)))
           (\<lambda>h1. and_then
              (store_slice h1 out (Some fade_len) (Some (- fade_len))
                 (Inr (py_slice (h1 ! shifted) (Some fade_len) (Some (- fade_len)))))
              (\<lambda>h2. and_then
                 (store_slice h2 out (Some (- fade_len)) None
                    (np_add (np_mul (py_slice (h2 ! shifted) (Some (- fade_len)) None) fade_out)
                            (np_mul (py_slice (h2 ! original) (Some (- fade_len)) None) fade_in)))
                 (\<lambda>h3. (Inr out, h3)))))"

subsection \<open>The shifter and warp\_magnitude\<close>

text \<open>The fields that \<open>__init__\<close> stores.\<close>

record shifter =
  sr :: real
  n_fft :: int
  hop_length :: int
  win_length :: int
  max_freq :: real

text \<open>
  \<open>np.linspace(start, stop, num)\<close> with the end point included, as numpy computes it:
  \<^verbatim>\<open>
      div = num - 1
      delta = stop - start
      y = arange(0, num)                  # as floats
      if div > 0:
          step = delta / div
          if step == 0:
              y = y / div; y = y * delta
          else:
              y = y * step
      else:
          y = y * delta
      y += start
      if num > 1:
          y[-1] = stop
  \<close>
  Every operation rounds, so the value at index \<open>i\<close> is \<open>fl (fl (i * step) + start)\<close>,
  which need not be the exact \<open>start + i * (stop - start) / (num - 1)\<close>.
\<close>

definition linspace :: "(real \<Rightarrow> real) \<Rightarrow> real \<Rightarrow> real \<Rightarrow> nat \<Rightarrow> real list" where
  "linspace fl start stop num =
     (let divisor = int num - 1;
          delta = fl (stop - start);
          y = map real [0..<num];
          y1 = (if 0 < divisor then
                  (let step = fl (delta / real_of_int divisor) in
                   if step = 0 then map (\<lambda>v. fl (fl (v / real_of_int divisor) * delta)) y
                   else map (\<lambda>v. fl (v * step)) y)
                else map (\<lambda>v. fl (v * delta)) y);
          y2 = map (\<lambda>v. fl (v + start)) y1
      in if 1 < num then y2[num - 1 := stop] else y2)"

text \<open>
  A magnitude matrix is the list of its rows, one row per frequency bin and one entry
  per time frame. \<open>mag[k, :]\<close> with an integer \<open>k\<close>: a negative index counts from the
  last row, an index outside the matrix raises IndexError.
\<close>

definition getrow :: "real list list \<Rightarrow> int \<Rightarrow> error + real list" where
  "getrow m k =
     (let n = int (length m); j = (if k < 0 then n + k else k)
      in if 0 \<le> j \<and> j < n then Inr (m ! nat j) else Inl IndexError)"

text \<open>
  \<^verbatim>\<open>
  def warp_magnitude(self, mag, alpha):
      n_bins, n_frames = mag.shape
      freqs = np.linspace(0, self.sr / 2, n_bins)
      warped_mag = np.zeros_like(mag)
      for i, f in enumerate(freqs):
          if f > self.max_freq:
              warped_mag[i, :] = mag[i, :]
              continue
          src_f = f / alpha
          if src_f < 0 or src_f > self.max_freq:
              continue
          src_idx = src_f / (self.sr / 2) * (n_bins - 1)
          low = int(np.floor(src_idx))
          high = min(low + 1, n_bins - 1)
          weight = src_idx - low
          warped_mag[i, :] = ((1 - weight) * mag[low, :] + weight * mag[high, :])
      return warped_mag
  \<close>
  One pass of the loop body yields the row to store in \<open>warped_mag[i, :]\<close>, or \<open>None\<close>
  where the body leaves the row as it is (\<open>continue\<close>), or the exception. The loop
  receives \<open>f\<close> as \<open>np.linspace\<close> computed it, and each float operation of the body
  rounds. The two float divisions by zero are written out: \<open>f / alpha\<close> with \<open>alpha = 0\<close> is NaN for
  \<open>f = 0\<close> (no comparison holds, and \<open>int\<close> of the NaN index raises ValueError) and an
  infinity otherwise (the bin is skipped); \<open>src_f / (self.sr / 2)\<close> with \<open>sr = 0\<close> is
  NaN or an infinity, on which \<open>int\<close> raises ValueError, respectively OverflowError.
\<close>

definition warp_bin ::
  "(real \<Rightarrow> real) \<Rightarrow> shifter \<Rightarrow> real list list \<Rightarrow> real \<Rightarrow> nat \<Rightarrow> nat \<Rightarrow> real
     \<Rightarrow> error + real list option" where
  "warp_bin fl self mag alpha n_bins i f =
     (if f > max_freq self then Inr (Some (mag ! i))
      else if alpha = 0 then (if f = 0 then Inl ValueError else Inr None)
      else
        let src_f = fl (f / alpha) in
        if src_f < 0 \<or> src_f > max_freq self then Inr None
        else if fl (sr self / 2) = 0 then
          (if src_f = 0 \<or> n_bins = 1 then Inl ValueError else Inl OverflowError)
        else
          let src_idx = fl (fl (src_f / fl (sr self / 2)) * (real n_bins - 1));
              low = \<lfloor>src_idx\<rfloor>;
              high = min (low + 1) (int n_bins - 1);
              weight = fl (src_idx - real_of_int low)
          in case getrow mag low of
               Inl e \<Rightarrow> Inl e
             | Inr low_row \<Rightarrow>
                 (case getrow mag high of
                    Inl e \<Rightarrow> Inl e
                  | Inr high_row \<Rightarrow>
                      Inr (Some (map2 (\<lambda>a b. fl (a + b))
                                   (map (\<lambda>a. fl (fl (1 - weight) * a)) low_row)
                                   (map (\<lambda>b. fl (weight * b)) high_row)))))"

fun warp_loop ::
  "(real \<Rightarrow> real) \<Rightarrow> shifter \<Rightarrow> real list list \<Rightarrow> real \<Rightarrow> nat \<Rightarrow> (nat \<times> real) list
     \<Rightarrow> real list list \<Rightarrow> error + real list list" where
  "warp_loop fl self mag alpha n_bins [] warped_mag = Inr warped_mag"
| "warp_loop fl self mag alpha n_bins ((i, f) # rest) warped_mag =
     (case warp_bin fl self mag alpha n_bins i f of
        Inl e \<Rightarrow> Inl e
      | Inr None \<Rightarrow> warp_loop fl self mag alpha n_bins rest warped_mag
      | Inr (Some row) \<Rightarrow> warp_loop fl self mag alpha n_bins rest (warped_mag[i := row]))"

text \<open>\<open>freqs = np.linspace(0, self.sr / 2, n_bins)\<close>: the centre frequencies of the bins.\<close>

definition bin_freqs :: "(real \<Rightarrow> real) \<Rightarrow> shifter \<Rightarrow> nat \<Rightarrow> real list" where
  "bin_freqs fl self n_bins = linspace fl 0 (fl (sr self / 2)) n_bins"

definition warp_magnitude ::
  "(real \<Rightarrow> real) \<Rightarrow> shifter \<Rightarrow> real list list \<Rightarrow> real \<Rightarrow> error + real list list" where
  "warp_magnitude fl self mag alpha =
     (let n_bins = length mag;
          n_frames = (case mag of [] \<Rightarrow> 0 | row # _ \<Rightarrow> length row);
          freqs = bin_freqs fl self n_bins;
          warped_mag = replicate n_bins (replicate n_frames 0)
      in warp_loop fl self mag alpha n_bins (enumerate 0 freqs) warped_mag)"

subsection \<open>shift\_formants\_vowel\<close>

text \<open>
  The table \<open>vowel_shifts\<close>. A Python string is a sequence of code points, and the keys
  are single IPA symbols outside ASCII, so a label is the list of its code points.
\<close>

definition vowel_shifts :: "(nat list \<times> real) list" where
  "vowel_shifts =
     [([105], 1.10), ([618], 1.05), ([101], 1.08), ([603], 1.00), ([230], 0.95),
      ([593], 0.90), ([594], 0.92), ([596], 0.95), ([111], 1.00), ([650], 0.97),
      ([117], 0.93), ([652], 1.05), ([601], 1.00), ([602], 1.00), ([605], 1.00)]"

text \<open>
  The argument \<open>phoneme\<close> is a dictionary with the keys \<open>'phoneme'\<close>, \<open>'start'\<close> and
  \<open>'end'\<close> (times in seconds).
\<close>

record segment =
  seg_phoneme :: "nat list"
  seg_start :: real
  seg_end :: real

text \<open>\<open>int(x)\<close> on a float truncates towards zero.\<close>

definition py_int :: "real \<Rightarrow> int" where
  "py_int x = (if 0 \<le> x then \<lfloor>x\<rfloor> else \<lceil>x\<rceil>)"

text \<open>
  \<open>librosa.stft\<close> and \<open>librosa.istft\<close> belong to a library outside the repository.
  They are parameters of the model: functions of the contents of their argument (they
  do not write into it) that return a new array or raise.
\<close>

record librosa =
  librosa_stft :: "real list \<Rightarrow> int \<Rightarrow> int \<Rightarrow> int \<Rightarrow> error + complex list list"
  librosa_istft :: "complex list list \<Rightarrow> int \<Rightarrow> int \<Rightarrow> error + real list"

definition stft :: "librosa \<Rightarrow> shifter \<Rightarrow> real list \<Rightarrow> error + complex list list" where
  "stft lib self audio = librosa_stft lib audio (n_fft self) (hop_length self) (win_length self)"

text \<open>\<open>S_new = mag * np.exp(1j * phase)\<close>, then \<open>librosa.istft\<close>.\<close>

definition istft :: "librosa \<Rightarrow> shifter \<Rightarrow> real list list \<Rightarrow> real list list \<Rightarrow> error + real list" where
  "istft lib self mag phase =
     (let S_new = map2 (map2 (\<lambda>m p. complex_of_real m * exp (\<i> * complex_of_real p))) mag phase
      in librosa_istft lib S_new (hop_length self) (win_length self))"

text \<open>
  \<^verbatim>\<open>
  def shift_formants_vowel(self, audio, phoneme):
      alpha = self.vowel_shifts.get(phoneme['phoneme'], 1.0)
      start_s = int(phoneme['start'] * self.sr)
      end_s = int(phoneme['end'] * self.sr)
      segment = audio[start_s:end_s]
      S = self.stft(segment)
      mag, phase = np.abs(S), np.angle(S)
      mag_warped = self.warp_magnitude(mag, alpha)
      shifted_segment = self.istft(mag_warped, phase)
      return shifted_segment
  \<close>
  \<open>audio\<close> is a reference into the store; the slice is a view of that array, which the
  function only reads. The products \<open>phoneme['start'] * self.sr\<close> and
  \<open>phoneme['end'] * self.sr\<close> are float products and round before \<open>int\<close> truncates. The result is the reference of the array that the inverse
  transform returns.
\<close>

definition shift_formants_vowel ::
  "(real \<Rightarrow> real) \<Rightarrow> librosa \<Rightarrow> shifter \<Rightarrow> heap \<Rightarrow> ref \<Rightarrow> segment \<Rightarrow> (error + ref) \<times> heap" where
  "shift_formants_vowel fl lib self h audio phoneme =
     (let alpha = (case map_of vowel_shifts (seg_phoneme phoneme) of None \<Rightarrow> 1.0 | Some a \<Rightarrow> a);
          start_s = py_int (fl (seg_start phoneme * sr self));
          end_s = py_int (fl (seg_end phoneme * sr self));
          segment = py_slice (h ! audio) (Some start_s) (Some end_s)
      in case stft lib self segment of
           Inl e \<Rightarrow> (Inl e, h)
         | Inr S \<Rightarrow>
             let mag = map (map cmod) S; phase = map (map Arg) S in
             (case warp_magnitude fl self mag alpha of
                Inl e \<Rightarrow> (Inl e, h)
              | Inr mag_warped \<Rightarrow>
                  (case istft lib self mag_warped phase of
                     Inl e \<Rightarrow> (Inl e, h)
                   | Inr shifted_segment \<Rightarrow> (Inr (length h), h @ [shifted_segment]))))"

subsection \<open>Auxiliary definitions\<close>

text \<open>
  The closed form of the array that \<open>crossfade\<close> returns for inputs of one length and
  a clamped fade length \<open>F\<close> of at least one: the two blended edges around the middle
  of \<open>shifted\<close>. It is not part of the program; \<open>crossfade_blend\<close> below proves that
  the program computes it.
\<close>

definition blend :: "real list \<Rightarrow> real list \<Rightarrow> nat \<Rightarrow> real list" where
  "blend original shifted F =
     (let w = hanning (2 * int F); n = length original in
        map2 (+) (map2 (*) (take F original) (drop F w)) (map2 (*) (take F shifted) (take F w))
        @ take (n - 2 * F) (drop F shifted)
        @ map2 (+) (map2 (*) (drop (n - F) shifted) (drop F w))
                   (map2 (*) (drop (n - F) original) (take F w)))"

text \<open>
  Concrete values for the evaluations below: the shifter of \<open>tests/test_formant_shifting.py\<close>
  at a sample rate of 16 kHz, and a transform pair that stands in for the library's, with
  a single frequency bin and one frame per sample.
\<close>

definition demo_shifter :: shifter where
  "demo_shifter =
     \<lparr>sr = 16000, n_fft = 1024, hop_length = 256, win_length = 1024, max_freq = 4000\<rparr>"

definition single_bin_lib :: librosa where
  "single_bin_lib =
     \<lparr>librosa_stft = (\<lambda>audio n_fft hop win. Inr [map complex_of_real audio]),
      librosa_istft = (\<lambda>S hop win. Inr (map Re (concat S)))\<rparr>"

subsection \<open>The contract of the transform pair\<close>







section \<open>Properties\<close>

subsection \<open>Slices, broadcasting and the window\<close>

lemma slice_index_nonneg: "0 \<le> i \<Longrightarrow> slice_index n i = min n (nat i)"
  by (simp add: slice_index_def)

lemma slice_index_neg: "i < 0 \<Longrightarrow> slice_index n i = n - nat (- i)"
  by (auto simp add: slice_index_def max_def)

lemma slice_index_le: "slice_index n i \<le> n"
  by (auto simp add: slice_index_def max_def)

lemma length_hanning: "length (hanning M) = nat M"
  by (auto simp add: hanning_def arange_def)

lemma hanning_nth:
  "2 \<le> M \<Longrightarrow> k < nat M \<Longrightarrow>
   hanning M ! k = 0.5 + 0.5 * cos (pi * real_of_int (1 - M + int k * 2) / real_of_int (M - 1))"
  by (simp add: hanning_def arange_def)

lemma slice_bounds_le:
  "slice_bounds n a b = (i, j) \<Longrightarrow> i \<le> n \<and> j \<le> n"
  by (auto simp add: slice_bounds_def slice_index_le split: option.splits)

lemma length_set_slice:
  assumes "set_slice xs a b v = Inr ys"
  shows "length ys = length xs"
proof -
  obtain i j where ij: "slice_bounds (length xs) a b = (i, j)"
    by (cases "slice_bounds (length xs) a b")
  then have le: "i \<le> length xs" "j \<le> length xs"
    using slice_bounds_le by blast+
  show ?thesis
  proof (cases "length v = j - i")
    case True
    with assms ij have "ys = take i xs @ v @ drop (i + (j - i)) xs"
      by (simp add: set_slice_def)
    with True le show ?thesis by auto
  next
    case False
    with assms ij have "ys = take i xs @ replicate (j - i) (hd v) @ drop (i + (j - i)) xs"
      by (simp add: set_slice_def split: if_splits)
    with le show ?thesis by auto
  qed
qed

lemma py_slice_head: "0 \<le> f \<Longrightarrow> py_slice xs None (Some f) = take (nat f) xs"
  by (simp add: py_slice_def slice_bounds_def slice_index_nonneg min_def)

lemma py_slice_from: "0 \<le> f \<Longrightarrow> py_slice xs (Some f) None = drop (nat f) xs"
  by (simp add: py_slice_def slice_bounds_def slice_index_nonneg min_def)

lemma py_slice_mid:
  "0 < f \<Longrightarrow> py_slice xs (Some f) (Some (- f)) = take (length xs - 2 * nat f) (drop (nat f) xs)"
  by (simp add: py_slice_def slice_bounds_def slice_index_nonneg slice_index_neg min_def mult_2)

lemma py_slice_tail: "0 < f \<Longrightarrow> py_slice xs (Some (- f)) None = drop (length xs - nat f) xs"
  by (simp add: py_slice_def slice_bounds_def slice_index_neg)

lemma set_slice_head:
  "0 \<le> f \<Longrightarrow> nat f \<le> length xs \<Longrightarrow> length v = nat f \<Longrightarrow>
   set_slice xs None (Some f) v = Inr (v @ drop (nat f) xs)"
  by (simp add: set_slice_def slice_bounds_def slice_index_nonneg)

lemma set_slice_mid:
  "0 < f \<Longrightarrow> 2 * nat f \<le> length xs \<Longrightarrow> length v = length xs - 2 * nat f \<Longrightarrow>
   set_slice xs (Some f) (Some (- f)) v = Inr (take (nat f) xs @ v @ drop (length xs - nat f) xs)"
proof -
  assume f: "0 < f" and le: "2 * nat f \<le> length xs" and lv: "length v = length xs - 2 * nat f"
  have b: "slice_bounds (length xs) (Some f) (Some (- f)) = (nat f, length xs - nat f)"
    using f le by (simp add: slice_bounds_def slice_index_nonneg slice_index_neg)
  have d: "nat f + (length xs - (nat f + nat f)) = length xs - nat f"
    using le by simp
  show ?thesis
    by (simp add: set_slice_def b lv d mult_2)
qed

lemma set_slice_tail:
  "0 < f \<Longrightarrow> nat f \<le> length xs \<Longrightarrow> length v = nat f \<Longrightarrow>
   set_slice xs (Some (- f)) None v = Inr (take (length xs - nat f) xs @ v)"
  by (simp add: set_slice_def slice_bounds_def slice_index_neg)

lemma np_mul_same: "length xs = length ys \<Longrightarrow> np_mul xs ys = Inr (map2 (*) xs ys)"
  by (simp add: np_mul_def broadcast2_def)

lemma np_add_same:
  "length xs = length ys \<Longrightarrow> np_add (Inr xs) (Inr ys) = Inr (map2 (+) xs ys)"
  by (simp add: np_add_def broadcast2_def)

lemma hanning_empty: "M < 1 \<Longrightarrow> hanning M = []"
  by (simp add: hanning_def)

lemma np_mul_empty: "np_mul xs [] = (if 2 \<le> length xs then Inl ValueError else Inr [])"
  by (cases xs) (auto simp add: np_mul_def broadcast2_def Suc_le_eq)

lemma set_slice_all_empty: "xs \<noteq> [] \<Longrightarrow> set_slice xs (Some 0) None [] = Inl ValueError"
  by (simp add: set_slice_def slice_bounds_def slice_index_def)

lemma set_slice_none: "set_slice xs None (Some 0) [] = Inr xs" "set_slice xs (Some 0) (Some 0) [] = Inr xs"
  by (simp_all add: set_slice_def slice_bounds_def slice_index_def)

lemma py_slice_zero: "py_slice xs None (Some 0) = []" "py_slice xs (Some 0) (Some 0) = []"
  "py_slice xs (Some 0) None = xs"
  by (simp_all add: py_slice_def slice_bounds_def slice_index_def)

lemma set_slice_mid_error:
  assumes f: "0 < f" and le: "2 * nat f \<le> length xs"
    and lv: "length v \<noteq> length xs - 2 * nat f" "length v \<noteq> 1"
  shows "set_slice xs (Some f) (Some (- f)) v = Inl ValueError"
proof -
  have b: "slice_bounds (length xs) (Some f) (Some (- f)) = (nat f, length xs - nat f)"
    using f le by (simp add: slice_bounds_def slice_index_nonneg slice_index_neg)
  show ?thesis
    using lv by (simp add: set_slice_def b mult_2)
qed

lemma hanning_first: "1 \<le> F \<Longrightarrow> hanning (2 * int F) ! 0 = 0"
proof -
  assume F: "1 \<le> F"
  then have nz: "2 * real F - 1 \<noteq> 0" by simp
  have "pi * (1 - 2 * real F) / (2 * real F - 1) = - pi"
    using nz by (simp add: field_simps)
  then show ?thesis
    using F by (simp add: hanning_nth)
qed

lemma hanning_last: "1 \<le> F \<Longrightarrow> hanning (2 * int F) ! (2 * F - 1) = 0"
proof -
  assume F: "1 \<le> F"
  then have nz: "2 * real F - 1 \<noteq> 0" by simp
  have e: "real (2 * F - 1) = 2 * real F - 1" using F by simp
  have "pi * (1 - 2 * real F + (2 * real F - 1) * 2) / (2 * real F - 1) = pi"
    using nz by (simp add: field_simps)
  then show ?thesis
    using F by (simp add: hanning_nth e)
qed

lemma hanning_centre_right:
  "1 \<le> F \<Longrightarrow> hanning (2 * int F) ! F = (1 + cos (pi / (2 * real F - 1))) / 2"
  by (simp add: hanning_nth field_simps)

lemma hanning_centre_left:
  "1 \<le> F \<Longrightarrow> hanning (2 * int F) ! (F - 1) = (1 + cos (pi / (2 * real F - 1))) / 2"
proof -
  assume F: "1 \<le> F"
  have e: "real (F - 1) = real F - 1" using F by simp
  have "pi * (1 - 2 * real F + (real F - 1) * 2) / (2 * real F - 1) = - (pi / (2 * real F - 1))"
    by (simp add: field_simps)
  then show ?thesis
    using F by (simp add: hanning_nth e)
qed


subsection \<open>What crossfade computes\<close>

lemma store_slice_last:
  "\<exists>x'. snd (store_slice (h @ [x]) (length h) a b rhs) = h @ [x'] \<and> length x' = length x"
proof (cases rhs)
  case (Inl e)
  then show ?thesis by (simp add: store_slice_def)
next
  case (Inr v)
  show ?thesis
  proof (cases "set_slice x a b v")
    case (Inl e)
    with Inr show ?thesis by (simp add: store_slice_def)
  next
    case (Inr ys)
    with \<open>rhs = Inr v\<close> length_set_slice [OF Inr] show ?thesis
      by (simp add: store_slice_def)
  qed
qed

lemma and_then_snd:
  assumes "P (snd m)" and "\<And>h1. P h1 \<Longrightarrow> P (snd (k h1))"
  shows "P (snd (and_then m k))"
proof (cases m)
  case (Pair r h1)
  with assms show ?thesis
    by (cases r) (simp_all add: and_then_def)
qed

lemma crossfade_heap:
  "\<exists>x. snd (crossfade h original shifted fade_length) = h @ [x] \<and> length x = length (h ! original)"
proof -
  define P where "P h' \<longleftrightarrow> (\<exists>x. h' = h @ [x] \<and> length x = length (h ! original))" for h'
  have step: "P (snd (store_slice h1 (length h) a b rhs))" if "P h1" for h1 a b rhs
    using that store_slice_last [of h _ a b rhs] unfolding P_def by metis
  have "P (snd (crossfade h original shifted fade_length))"
    unfolding crossfade_def Let_def
  proof (rule and_then_snd [where P = P])
    show "P (snd (store_slice (h @ [h ! original]) (length h) a b rhs))" for a b rhs
      by (rule step) (simp add: P_def)
  next
    fix h1 assume h1: "P h1"
    show "P (snd (and_then (store_slice h1 (length h) a b rhs) (\<lambda>h2. and_then (store_slice h2 (length h) a' b' (rhs' h2)) (\<lambda>h3. (Inr (length h), h3)))))"
      for a b rhs a' b' rhs'
    proof (rule and_then_snd [where P = P])
      show "P (snd (store_slice h1 (length h) a b rhs))" by (rule step [OF h1])
    next
      fix h2 assume h2: "P h2"
      show "P (snd (and_then (store_slice h2 (length h) a' b' (rhs' h2)) (\<lambda>h3. (Inr (length h), h3))))"
        by (rule and_then_snd [where P = P]) (simp_all add: step [OF h2])
    qed
  qed
  then show ?thesis by (simp add: P_def)
qed

lemma crossfade_blend:
  assumes o: "original < length h" and s: "shifted < length h"
    and len: "length (h ! shifted) = length (h ! original)"
    and fl: "1 \<le> fade_length" and n2: "2 \<le> length (h ! original)"
  shows "crossfade h original shifted fade_length =
         (Inr (length h),
          h @ [blend (h ! original) (h ! shifted)
                 (nat (min fade_length (int (length (h ! original)) div 2)))])"
proof -
  define n where "n = length (h ! original)"
  define f where "f = min fade_length (int n div 2)"
  define F where "F = nat f"
  define w where "w = hanning (f * 2)"
  have f1: "1 \<le> f" using fl n2 by (simp add: f_def n_def)
  have F2: "2 * F \<le> n" using f1 by (simp add: F_def f_def)
  have F1: "1 \<le> F" using f1 by (simp add: F_def)
  have lw: "length w = 2 * F" using f1 by (simp add: w_def length_hanning F_def)
  have fF: "f = int F" using f1 by (simp add: F_def)
  define v1 where "v1 = map2 (+) (map2 (*) (take F (h ! original)) (drop F w)) (map2 (*) (take F (h ! shifted)) (take F w))"
  define v2 where "v2 = take (n - 2 * F) (drop F (h ! shifted))"
  define v3 where "v3 = map2 (+) (map2 (*) (drop (n - F) (h ! shifted)) (drop F w)) (map2 (*) (drop (n - F) (h ! original)) (take F w))"
  have l1: "length v1 = F" using F2 lw len by (simp add: v1_def n_def)
  have l2: "length v2 = n - 2 * F" using F2 len by (simp add: v2_def n_def)
  have l3: "length v3 = F" using F2 lw len by (simp add: v3_def n_def)
  have rd: "(h @ [x]) ! original = h ! original" "(h @ [x]) ! shifted = h ! shifted" for x
    using o s by (simp_all add: nth_append)
  have rhs1: "np_add (np_mul (py_slice (h ! original) None (Some f)) (py_slice w (Some f) None))
                     (np_mul (py_slice (h ! shifted) None (Some f)) (py_slice w None (Some f))) = Inr v1"
    using f1 F2 lw len
    by (simp add: py_slice_head py_slice_from np_mul_same np_add_same v1_def F_def [symmetric] n_def)
  have rhs3: "np_add (np_mul (py_slice (h ! shifted) (Some (- f)) None) (py_slice w (Some f) None))
                     (np_mul (py_slice (h ! original) (Some (- f)) None) (py_slice w None (Some f))) = Inr v3"
    using f1 F2 lw len
    by (simp add: py_slice_tail py_slice_head py_slice_from np_mul_same np_add_same v3_def F_def [symmetric] n_def)
  have rhs2: "py_slice (h ! shifted) (Some f) (Some (- f)) = v2"
    using f1 len by (simp add: py_slice_mid v2_def F_def [symmetric] n_def)
  have a1: "set_slice (h ! original) None (Some f) v1 = Inr (v1 @ drop F (h ! original))"
    using f1 F2 l1 by (simp add: set_slice_head F_def [symmetric] n_def)
  have a2: "set_slice (v1 @ drop F (h ! original)) (Some f) (Some (- f)) v2
            = Inr (v1 @ v2 @ drop (n - F) (h ! original))"
    using f1 F2 l1 l2 by (simp add: set_slice_mid F_def [symmetric] n_def)
  have a3: "set_slice (v1 @ v2 @ drop (n - F) (h ! original)) (Some (- f)) None v3
            = Inr (v1 @ v2 @ v3)"
    using f1 F2 l1 l2 l3 by (simp add: set_slice_tail F_def [symmetric] n_def)
  have "crossfade h original shifted fade_length = (Inr (length h), h @ [v1 @ v2 @ v3])"
    unfolding crossfade_def Let_def n_def [symmetric] f_def [symmetric] w_def [symmetric]
    by (simp add: store_slice_def and_then_def rd rhs1 rhs2 rhs3 a1 a2 a3)
  moreover have "blend (h ! original) (h ! shifted) F = v1 @ v2 @ v3"
    by (simp add: blend_def Let_def v1_def v2_def v3_def w_def fF n_def mult.commute)
  ultimately show ?thesis by (simp add: F_def f_def n_def)
qed

lemma crossfade_zero_fade:
  assumes o: "original < length h" and s: "shifted < length h"
    and f0: "min fade_length (int (length (h ! original)) div 2) = 0"
    and n1: "h ! original \<noteq> []"
  shows "crossfade h original shifted fade_length = (Inl ValueError, h @ [h ! original])"
proof -
  have rd: "(h @ [x]) ! original = h ! original" "(h @ [x]) ! shifted = h ! shifted" for x
    using o s by (simp_all add: nth_append)
  have r3: "np_add (np_mul (h ! shifted) []) (np_mul (h ! original) []) = Inl ValueError
            \<or> np_add (np_mul (h ! shifted) []) (np_mul (h ! original) []) = Inr []"
    by (simp add: np_mul_empty np_add_def broadcast2_def)
  then show ?thesis
    unfolding crossfade_def Let_def f0
    using n1
    by (auto simp add: hanning_empty py_slice_zero rd store_slice_def and_then_def
        set_slice_none set_slice_all_empty np_mul_def np_add_def broadcast2_def)
qed

lemma broadcast2_error: "broadcast2 f xs ys = Inl e \<Longrightarrow> e = ValueError"
  by (simp add: broadcast2_def split: if_splits)

lemma np_add_error:
  assumes "np_add a b = Inl e" and "\<And>e. a = Inl e \<Longrightarrow> e = ValueError"
    and "\<And>e. b = Inl e \<Longrightarrow> e = ValueError"
  shows "e = ValueError"
  using assms by (auto simp add: np_add_def split: sum.splits dest: broadcast2_error)

lemma set_slice_error: "set_slice xs a b v = Inl e \<Longrightarrow> e = ValueError"
  by (simp add: set_slice_def split: prod.splits if_splits)

lemma store_slice_error:
  assumes "fst (store_slice h r a b rhs) = Inl e" and "\<And>e. rhs = Inl e \<Longrightarrow> e = ValueError"
  shows "e = ValueError"
  using assms by (auto simp add: store_slice_def split: sum.splits dest: set_slice_error)

lemma and_then_error:
  assumes "fst (and_then m k) = Inl e" and "\<And>e. fst m = Inl e \<Longrightarrow> e = ValueError"
    and "\<And>h1 e. fst (k h1) = Inl e \<Longrightarrow> e = ValueError"
  shows "e = ValueError"
proof (cases m)
  case (Pair r h1)
  with assms show ?thesis
    by (cases r) (auto simp add: and_then_def)
qed

lemma crossfade_error:
  assumes "fst (crossfade h original shifted fade_length) = Inl e"
  shows "e = ValueError"
  using assms unfolding crossfade_def Let_def
  by (elim and_then_error store_slice_error np_add_error)
     (auto simp add: np_mul_def dest: broadcast2_error)

lemma and_then_ref:
  assumes "fst (and_then m k) = Inr r" and "\<And>h1. fst (k h1) = Inr r \<Longrightarrow> r = r0"
  shows "r = r0"
proof (cases m)
  case (Pair x h1)
  with assms show ?thesis
    by (cases x) (auto simp add: and_then_def)
qed

lemma crossfade_ref:
  assumes "fst (crossfade h original shifted fade_length) = Inr r"
  shows "r = length h"
  using assms unfolding crossfade_def Let_def
  by (elim and_then_ref) simp

lemma crossfade_longer_shifted:
  assumes o: "original < length h" and s: "shifted < length h"
    and fl: "0 \<le> fade_length"
    and len: "length (h ! original) + 2 \<le> length (h ! shifted)"
  shows "fst (crossfade h original shifted fade_length) = Inl ValueError"
proof -
  define n where "n = length (h ! original)"
  define f where "f = min fade_length (int n div 2)"
  have rd: "(h @ [x]) ! original = h ! original" "(h @ [x]) ! shifted = h ! shifted" for x
    using o s by (simp_all add: nth_append)
  have "0 \<le> f" using fl by (simp add: f_def)
  then have "f = 0 \<or> 1 \<le> f" by linarith
  then consider (zero) "f = 0" "h ! original \<noteq> []" | (empty) "h ! original = []" | (pos) "1 \<le> f"
    by (cases "h ! original = []") auto
  then show ?thesis
  proof cases
    case zero
    then show ?thesis
      using crossfade_zero_fade [OF o s] by (simp add: f_def n_def)
  next
    case empty
    then have f0: "min fade_length (int (length (h ! original)) div 2) = 0"
      using fl by simp
    have m3: "np_mul (h ! shifted) [] = Inl ValueError"
      using len by (simp add: np_mul_empty)
    have m1: "np_mul [] [] = Inr []"
      by (simp add: np_mul_empty)
    show ?thesis
      unfolding crossfade_def Let_def f0
      by (simp add: hanning_empty py_slice_zero rd store_slice_def and_then_def
          set_slice_none np_add_def empty m1 m3 broadcast2_def)
  next
    case pos
    define F where "F = nat f"
    define w where "w = hanning (f * 2)"
    have F2: "2 * F \<le> n" using pos by (simp add: F_def f_def)
    have lw: "length w = 2 * F" using pos by (simp add: w_def length_hanning F_def)
    define v1 where "v1 = map2 (+) (map2 (*) (take F (h ! original)) (drop F w)) (map2 (*) (take F (h ! shifted)) (take F w))"
    have l1: "length v1 = F" using F2 lw len by (simp add: v1_def n_def)
    have rhs1: "np_add (np_mul (py_slice (h ! original) None (Some f)) (py_slice w (Some f) None))
                     (np_mul (py_slice (h ! shifted) None (Some f)) (py_slice w None (Some f))) = Inr v1"
      using pos F2 lw len
      by (simp add: py_slice_head py_slice_from np_mul_same np_add_same v1_def F_def [symmetric] n_def)
    have a1: "set_slice (h ! original) None (Some f) v1 = Inr (v1 @ drop F (h ! original))"
      using pos F2 l1 by (simp add: set_slice_head F_def [symmetric] n_def)
    have a2: "set_slice (v1 @ drop F (h ! original)) (Some f) (Some (- f))
                (py_slice (h ! shifted) (Some f) (Some (- f))) = Inl ValueError"
      using pos F2 l1 len
      by (intro set_slice_mid_error) (simp_all add: py_slice_mid F_def [symmetric] n_def)
    show ?thesis
      unfolding crossfade_def Let_def n_def [symmetric] f_def [symmetric] w_def [symmetric]
      by (simp add: store_slice_def and_then_def rd rhs1 a1 a2)
  qed
qed

lemma blend_first:
  assumes F: "1 \<le> F" "2 * F \<le> length original" and len: "length shifted = length original"
  shows "blend original shifted F ! 0 = original ! 0 * ((1 + cos (pi / (2 * real F - 1))) / 2)"
proof -
  define w where "w = hanning (2 * int F)"
  have lw: "length w = 2 * F" by (simp add: w_def length_hanning)
  define v1 where "v1 = map2 (+) (map2 (*) (take F original) (drop F w)) (map2 (*) (take F shifted) (take F w))"
  have l1: "length v1 = F" using F lw len by (simp add: v1_def)
  have "blend original shifted F ! 0 = v1 ! 0"
    using F l1 by (simp add: blend_def Let_def w_def [symmetric] v1_def [symmetric] nth_append)
  also have "\<dots> = original ! 0 * w ! F + shifted ! 0 * w ! 0"
    using F lw len by (simp add: v1_def)
  finally show ?thesis
    using F by (simp add: w_def hanning_first hanning_centre_right)
qed

lemma blend_last:
  assumes F: "1 \<le> F" "2 * F \<le> length original" and len: "length shifted = length original"
  shows "last (blend original shifted F) = last original * ((1 + cos (pi / (2 * real F - 1))) / 2)"
proof -
  define w where "w = hanning (2 * int F)"
  define n where "n = length original"
  have lw: "length w = 2 * F" by (simp add: w_def length_hanning)
  define v3 where "v3 = map2 (+) (map2 (*) (drop (n - F) shifted) (drop F w)) (map2 (*) (drop (n - F) original) (take F w))"
  have l3: "length v3 = F" using F lw len by (simp add: v3_def n_def)
  then have ne: "v3 \<noteq> []" using F by auto
  have on: "original \<noteq> []" using F by auto
  have "last (blend original shifted F) = last v3"
    using ne by (simp add: blend_def Let_def w_def [symmetric] n_def [symmetric] v3_def [symmetric])
  also have "\<dots> = v3 ! (F - 1)"
    using ne l3 by (simp add: last_conv_nth)
  also have "\<dots> = shifted ! (n - F + (F - 1)) * w ! (F + (F - 1)) + original ! (n - F + (F - 1)) * w ! (F - 1)"
    using F lw len by (simp add: v3_def n_def)
  also have "n - F + (F - 1) = n - 1" using F by (simp add: n_def)
  also have "F + (F - 1) = 2 * F - 1" using F by simp
  also have "original ! (n - 1) = last original"
    using on by (simp add: last_conv_nth n_def)
  finally have eq: "last (blend original shifted F) =
      shifted ! (n - 1) * w ! (2 * F - 1) + last original * w ! (F - 1)" .
  show ?thesis
    unfolding eq w_def hanning_last [OF F(1)] hanning_centre_left [OF F(1)] by simp
qed

lemma blend_interior:
  assumes "F \<le> i" "i < length original - F" and len: "length shifted = length original"
  shows "blend original shifted F ! i = shifted ! i"
proof -
  define w where "w = hanning (2 * int F)"
  define n where "n = length original"
  have lw: "length w = 2 * F" by (simp add: w_def length_hanning)
  define v1 where "v1 = map2 (+) (map2 (*) (take F original) (drop F w)) (map2 (*) (take F shifted) (take F w))"
  have l1: "length v1 = F" using assms lw by (simp add: v1_def)
  have mid: "i - F < n - 2 * F"
    using assms by (simp add: n_def)
  have "blend original shifted F ! i = take (n - 2 * F) (drop F shifted) ! (i - F)"
    using assms l1 mid by (simp add: blend_def Let_def w_def [symmetric] n_def [symmetric] v1_def [symmetric] nth_append)
  also have "\<dots> = shifted ! i"
    using assms mid by (simp add: n_def)
  finally show ?thesis .
qed

lemma cos_centre_less_one: "1 \<le> F \<Longrightarrow> (1 + cos (pi / (2 * real F - 1))) / 2 < 1"
proof -
  assume F: "1 \<le> F"
  then have "0 < pi / (2 * real F - 1)" "pi / (2 * real F - 1) \<le> pi"
    by (simp_all add: field_simps)
  then have "cos (pi / (2 * real F - 1)) < cos 0"
    by (intro cos_monotone_0_pi) simp_all
  then show ?thesis by simp
qed


subsection \<open>What warp\_magnitude computes\<close>

lemma length_linspace: "length (linspace fl a b n) = n"
  by (simp add: linspace_def Let_def)

lemma length_bin_freqs: "length (bin_freqs fl self n) = n"
  by (simp add: bin_freqs_def length_linspace)

text \<open>In exact arithmetic the values of \<open>np.linspace\<close> are the exact centre frequencies.\<close>

lemma linspace_exact_nth:
  assumes "i < n"
  shows "linspace no_rounding 0 b n ! i = real i * b / real (n - 1)"
proof (cases "n = 1")
  case True
  with assms show ?thesis
    by (simp add: linspace_def no_rounding_def)
next
  case False
  with assms have n: "1 < n" by simp
  then have d: "0 < int n - 1" and r: "real_of_int (int n - 1) = real (n - 1)"
    by simp_all
  define y where "y = map (\<lambda>k. real k * (b / real (n - 1))) [0..<n]"
  have ly: "length y = n" by (simp add: y_def)
  have lin: "linspace no_rounding 0 b n = y[n - 1 := b]"
  proof (cases "b / real (n - 1) = 0")
    case True
    with n have "b = 0" by simp
    with n d show ?thesis
      by (simp add: linspace_def Let_def no_rounding_def y_def o_def)
  next
    case False
    with n d show ?thesis
      by (simp add: linspace_def Let_def no_rounding_def r y_def o_def)
  qed
  show ?thesis
  proof (cases "i = n - 1")
    case True
    with n ly show ?thesis by (simp add: lin)
  next
    case False
    with assms ly show ?thesis by (simp add: lin y_def)
  qed
qed

lemma bin_freqs_exact_nth:
  "i < n \<Longrightarrow> bin_freqs no_rounding self n ! i = real i * (sr self / 2) / real (n - 1)"
  by (simp add: bin_freqs_def linspace_exact_nth) (simp add: no_rounding_def)

lemma warp_loop_length:
  "warp_loop fl self mag alpha n ps w = Inr out \<Longrightarrow> length out = length w"
proof (induction ps arbitrary: w)
  case Nil
  then show ?case by simp
next
  case (Cons p ps)
  obtain i f where p: "p = (i, f)" by (cases p)
  from Cons.prems show ?case
    unfolding p
    by (auto split: sum.splits option.splits dest: Cons.IH)
qed

lemma warp_loop_skip:
  "warp_loop fl self mag alpha n ps w = Inr out \<Longrightarrow> i \<notin> fst ` set ps \<Longrightarrow> out ! i = w ! i"
proof (induction ps arbitrary: w)
  case Nil
  then show ?case by simp
next
  case (Cons p ps)
  obtain j f where p: "p = (j, f)" by (cases p)
  from Cons.prems have ij: "i \<noteq> j" and notin: "i \<notin> fst ` set ps"
    by (auto simp add: p)
  from Cons.prems(1) show ?case
    unfolding p using ij Cons.IH [OF _ notin]
    by (auto split: sum.splits option.splits)
qed

lemma warp_loop_Cons:
  "warp_loop fl self mag alpha n ((j, g) # ps) w = Inr out \<Longrightarrow>
   \<exists>r. warp_bin fl self mag alpha n j g = Inr r \<and>
       warp_loop fl self mag alpha n ps (case r of None \<Rightarrow> w | Some row \<Rightarrow> w[j := row]) = Inr out"
  by (auto split: sum.splits option.splits)

lemma warp_loop_bin:
  assumes "warp_loop fl self mag alpha n ps w = Inr out"
    and "distinct (map fst ps)" and "(i, f) \<in> set ps" and "i < length w"
  shows "\<exists>r. warp_bin fl self mag alpha n i f = Inr r \<and>
             out ! i = (case r of None \<Rightarrow> w ! i | Some row \<Rightarrow> row)"
  using assms
proof (induction ps arbitrary: w)
  case Nil
  then show ?case by simp
next
  case (Cons p ps)
  obtain j g where p: "p = (j, g)" by (cases p)
  from Cons.prems(1) obtain r where r: "warp_bin fl self mag alpha n j g = Inr r"
    and rest: "warp_loop fl self mag alpha n ps (case r of None \<Rightarrow> w | Some row \<Rightarrow> w[j := row]) = Inr out"
    unfolding p using warp_loop_Cons by blast
  define w' where "w' = (case r of None \<Rightarrow> w | Some row \<Rightarrow> w[j := row])"
  have lw: "i < length w'"
    using Cons.prems(4) by (simp add: w'_def split: option.splits)
  show ?case
  proof (cases "(i, f) = (j, g)")
    case True
    then have notin: "i \<notin> fst ` set ps"
      using Cons.prems(2) by (simp add: p)
    have "out ! i = w' ! i"
      using warp_loop_skip [OF _ notin] rest by (simp add: w'_def)
    also have "w' ! i = (case r of None \<Rightarrow> w ! i | Some row \<Rightarrow> row)"
      using True Cons.prems(4) by (simp add: w'_def split: option.splits)
    finally show ?thesis
      using True r by auto
  next
    case False
    with Cons.prems(3) have mem: "(i, f) \<in> set ps" by (auto simp add: p)
    from Cons.prems(2) have d: "distinct (map fst ps)" by simp
    from mem Cons.prems(2) have ij: "i \<noteq> j" by (force simp add: p)
    have same: "w' ! i = w ! i"
      using ij by (simp add: w'_def split: option.splits)
    from rest have "warp_loop fl self mag alpha n ps w' = Inr out"
      by (simp add: w'_def)
    from Cons.IH [OF this d mem lw] show ?thesis
      unfolding same .
  qed
qed

lemma warp_loop_total:
  assumes "\<And>i f. (i, f) \<in> set ps \<Longrightarrow> \<exists>r. warp_bin fl self mag alpha n i f = Inr r"
  shows "\<exists>out. warp_loop fl self mag alpha n ps w = Inr out"
  using assms
proof (induction ps arbitrary: w)
  case Nil
  then show ?case by simp
next
  case (Cons p ps)
  obtain j g where p: "p = (j, g)" by (cases p)
  from Cons.prems [of j g] obtain r where r: "warp_bin fl self mag alpha n j g = Inr r"
    by (auto simp add: p)
  have "\<exists>out. warp_loop fl self mag alpha n ps w' = Inr out" for w'
    by (rule Cons.IH) (simp add: Cons.prems)
  then show ?case
    unfolding p by (cases r) (simp_all add: r)
qed

lemma warp_magnitude_bin:
  assumes out: "warp_magnitude fl self mag alpha = Inr out" and i: "i < length mag"
  shows "\<exists>r. warp_bin fl self mag alpha (length mag) i (bin_freqs fl self (length mag) ! i) = Inr r \<and>
             out ! i = (case r of None \<Rightarrow> replicate (length (hd mag)) 0 | Some row \<Rightarrow> row)"
proof -
  define freqs where "freqs = bin_freqs fl self (length mag)"
  define nf where "nf = (case mag of [] \<Rightarrow> 0 | row # _ \<Rightarrow> length row)"
  have nf: "nf = length (hd mag)" using i by (cases mag) (simp_all add: nf_def)
  have loop: "warp_loop fl self mag alpha (length mag) (enumerate 0 freqs)
                (replicate (length mag) (replicate nf 0)) = Inr out"
    using out by (simp add: warp_magnitude_def Let_def freqs_def nf_def)
  have mem: "(i, freqs ! i) \<in> set (enumerate 0 freqs)"
    using i by (simp add: in_set_enumerate_eq freqs_def length_bin_freqs)
  have d: "distinct (map fst (enumerate 0 freqs))"
    by simp
  have z: "replicate (length mag) (replicate nf (0::real)) ! i = replicate (length (hd mag)) 0"
    using i by (simp add: nf)
  from warp_loop_bin [OF loop d mem] i show ?thesis
    unfolding z freqs_def by simp
qed

lemma length_warp_magnitude:
  "warp_magnitude fl self mag alpha = Inr out \<Longrightarrow> length out = length mag"
  by (auto simp add: warp_magnitude_def Let_def dest: warp_loop_length)

lemma interpolate_same:
  "length xs = length ys \<Longrightarrow> map2 (+) (map ((*) (1::real)) xs) (map ((*) 0) ys) = xs"
  by (induction xs ys rule: list_induct2) simp_all

lemma getrow_nat: "i < length m \<Longrightarrow> getrow m (int i) = Inr (m ! i)"
  by (simp add: getrow_def)

text \<open>The loop body in exact arithmetic.\<close>

lemma warp_bin_exact:
  "warp_bin no_rounding self mag alpha n_bins i f =
     (if f > max_freq self then Inr (Some (mag ! i))
      else if alpha = 0 then (if f = 0 then Inl ValueError else Inr None)
      else
        let src_f = f / alpha in
        if src_f < 0 \<or> src_f > max_freq self then Inr None
        else if sr self / 2 = 0 then
          (if src_f = 0 \<or> n_bins = 1 then Inl ValueError else Inl OverflowError)
        else
          let src_idx = src_f / (sr self / 2) * (real n_bins - 1);
              low = \<lfloor>src_idx\<rfloor>;
              high = min (low + 1) (int n_bins - 1);
              weight = src_idx - real_of_int low
          in case getrow mag low of
               Inl e \<Rightarrow> Inl e
             | Inr low_row \<Rightarrow>
                 (case getrow mag high of
                    Inl e \<Rightarrow> Inl e
                  | Inr high_row \<Rightarrow>
                      Inr (Some (map2 (+) (map ((*) (1 - weight)) low_row)
                                          (map ((*) weight) high_row)))))"
  unfolding warp_bin_def no_rounding_def ..

lemma warp_bin_identity:
  assumes sr: "0 < sr self" and rect: "\<forall>row\<in>set mag. length row = n_frames" and i: "i < length mag"
  shows "warp_bin no_rounding self mag 1 (length mag) i (real i * (sr self / 2) / real (length mag - 1))
         = Inr (Some (mag ! i))"
proof -
  define n where "n = length mag"
  define f where "f = real i * (sr self / 2) / real (n - 1)"
  have f0: "0 \<le> f" using sr by (simp add: f_def)
  have idx: "f / (sr self / 2) * (real n - 1) = real i"
  proof (cases "n = 1")
    case True
    with i show ?thesis by (simp add: n_def)
  next
    case False
    with i have d: "real (n - 1) \<noteq> 0" and e: "real n - 1 = real (n - 1)"
      by (auto simp add: n_def)
    have s: "sr self / 2 \<noteq> 0" using sr by simp
    have "x * s / d / s * d = x" if "s \<noteq> 0" "d \<noteq> 0" for x s d :: real
      using that by simp
    from this [OF s d] show ?thesis unfolding f_def e .
  qed
  from idx have idx': "f * 2 * (real n - 1) / sr self = real i"
    by simp
  define high where "high = min (int i + 1) (int n - 1)"
  have hb: "0 \<le> high" "high < int n" using i by (auto simp add: high_def n_def)
  then have gh: "getrow mag high = Inr (mag ! nat high)"
    by (simp add: getrow_def n_def)
  have "nat high < length mag" using hb by (simp add: n_def)
  then have len: "length (mag ! i) = length (mag ! nat high)"
    using rect i by simp
  show ?thesis
  proof (cases "max_freq self < f")
    case True
    then show ?thesis by (simp add: warp_bin_exact f_def n_def)
  next
    case False
    with f0 sr show ?thesis
      unfolding n_def [symmetric] f_def [symmetric]
      by (simp add: warp_bin_exact Let_def idx' getrow_nat [OF i] high_def [symmetric] gh
          interpolate_same [OF len])
  qed
qed


text \<open>
  In exact arithmetic, with a positive sample rate, a positive \<open>alpha\<close> and a cutoff at
  or below the Nyquist frequency no index leaves the matrix, and \<open>warp_magnitude\<close>
  returns.
\<close>

lemma getrow_in_range: "0 \<le> k \<Longrightarrow> k < int (length m) \<Longrightarrow> \<exists>row. getrow m k = Inr row"
  by (simp add: getrow_def)

lemma warp_bin_returns:
  assumes sr: "0 < sr self" and alpha: "0 < alpha" and cut: "max_freq self \<le> sr self / 2"
    and i: "i < length mag"
  shows "\<exists>r. warp_bin no_rounding self mag alpha (length mag) i f = Inr r"
proof (cases "max_freq self < f \<or> f / alpha < 0 \<or> max_freq self < f / alpha")
  case True
  with alpha show ?thesis
    by (auto simp add: warp_bin_exact Let_def)
next
  case False
  define n where "n = length mag"
  define src_idx where "src_idx = f / alpha / (sr self / 2) * (real n - 1)"
  have n1: "0 \<le> real n - 1" using i by (simp add: n_def)
  have lo: "0 \<le> f / alpha" and le: "f / alpha \<le> max_freq self"
    using False by (simp_all add: not_less)
  have hi: "f / alpha \<le> sr self / 2"
    using le cut by (rule order_trans)
  have hs: "0 < sr self / 2" using sr by simp
  have q0: "0 \<le> f / alpha / (sr self / 2)"
    using lo hs by (rule divide_nonneg_pos)
  have q1: "f / alpha / (sr self / 2) \<le> 1"
    using hi hs by (simp only: pos_divide_le_eq mult_1)
  have s0: "0 \<le> src_idx"
    unfolding src_idx_def using q0 n1 by (rule mult_nonneg_nonneg)
  have "src_idx \<le> 1 * (real n - 1)"
    unfolding src_idx_def using q1 n1 by (rule mult_right_mono)
  then have s1: "src_idx \<le> real n - 1" by simp
  have l0: "0 \<le> \<lfloor>src_idx\<rfloor>" using s0 by simp
  have "\<lfloor>src_idx\<rfloor> \<le> \<lfloor>real n - 1\<rfloor>" using s1 by (rule floor_mono)
  also have "\<lfloor>real n - 1\<rfloor> = int n - 1" by linarith
  finally have l1: "\<lfloor>src_idx\<rfloor> < int n" by simp
  define high where "high = min (\<lfloor>src_idx\<rfloor> + 1) (int n - 1)"
  have h0: "0 \<le> high" "high < int n"
    using l0 l1 i by (auto simp add: high_def n_def)
  from getrow_in_range [OF l0 l1 [unfolded n_def]] obtain low_row
    where lr: "getrow mag \<lfloor>src_idx\<rfloor> = Inr low_row" by blast
  from getrow_in_range [OF h0 [unfolded n_def]] obtain high_row
    where hr: "getrow mag high = Inr high_row" by blast
  have nz: "sr self / 2 \<noteq> 0" "alpha \<noteq> 0" using sr alpha by simp_all
  show ?thesis
    unfolding warp_bin_exact Let_def n_def [symmetric] src_idx_def [symmetric] high_def [symmetric]
    using False nz by (simp add: lr hr)
qed

lemma warp_magnitude_returns:
  assumes "0 < sr self" and "0 < alpha" and "max_freq self \<le> sr self / 2"
  shows "\<exists>out. warp_magnitude no_rounding self mag alpha = Inr out"
proof -
  have "\<exists>r. warp_bin no_rounding self mag alpha (length mag) i f = Inr r"
    if "(i, f) \<in> set (enumerate 0 (bin_freqs no_rounding self (length mag)))" for i f
  proof -
    from that have "i < length mag"
      by (simp add: in_set_enumerate_eq length_bin_freqs)
    then show ?thesis by (rule warp_bin_returns [OF assms])
  qed
  then show ?thesis
    unfolding warp_magnitude_def Let_def by (rule warp_loop_total)
qed

subsection \<open>What shift\_formants\_vowel computes\<close>

lemma Arg_pos_real: "0 < x \<Longrightarrow> Arg (complex_of_real x) = 0"
  by (rule cis_Arg_unique) (simp_all add: sgn_of_real)

lemma Arg_numeral: "Arg (numeral k) = 0" "Arg 1 = 0"
  using Arg_pos_real [of "numeral k"] Arg_pos_real [of 1] by simp_all

lemmas slice_eval = py_slice_def slice_bounds_def slice_index_def

lemma warp_single_bin:
  "warp_magnitude no_rounding demo_shifter [row] (11/10) = Inr [row]"
  by (simp add: warp_magnitude_def bin_freqs_def linspace_def enumerate_eq_zip warp_bin_exact
      demo_shifter_def getrow_def Let_def interpolate_same no_rounding_def)

lemma shift_heap:
  "take (length h) (snd (shift_formants_vowel fl lib self h audio p)) = h"
  by (simp add: shift_formants_vowel_def Let_def split: sum.splits)

lemma shift_ref:
  "fst (shift_formants_vowel fl lib self h audio p) = Inr r \<Longrightarrow> r = length h"
  by (simp add: shift_formants_vowel_def Let_def split: sum.splits)

lemma py_slice_beyond:
  "int (length xs) \<le> b \<Longrightarrow> int (length xs) \<le> b' \<Longrightarrow>
   py_slice xs (Some a) (Some b) = py_slice xs (Some a) (Some b')"
  by (simp add: py_slice_def slice_bounds_def slice_index_def)

lemma py_slice_backwards:
  "0 \<le> b \<Longrightarrow> b \<le> a \<Longrightarrow> py_slice xs (Some a) (Some b) = []"
  by (simp add: py_slice_def slice_bounds_def slice_index_def)

lemma shift_clamped:
  assumes "int (length (h ! audio)) \<le> py_int (fl (seg_end p * sr self))"
    and "int (length (h ! audio)) \<le> py_int (fl (e * sr self))"
  shows "shift_formants_vowel fl lib self h audio (p\<lparr>seg_end := e\<rparr>)
         = shift_formants_vowel fl lib self h audio p"
  using py_slice_beyond [OF assms(2,1)]
  by (simp add: shift_formants_vowel_def)

lemma shift_empty:
  assumes "fl 0 = 0" and "0 \<le> py_int (fl (seg_end p * sr self))"
    and "py_int (fl (seg_end p * sr self)) \<le> py_int (fl (seg_start p * sr self))"
  shows "shift_formants_vowel fl lib self h audio p =
         shift_formants_vowel fl lib self h audio (p\<lparr>seg_start := 0, seg_end := 0\<rparr>)"
proof -
  have z: "py_int (fl (0 * sr self)) = 0" using assms(1) by (simp add: py_int_def)
  show ?thesis
    using py_slice_backwards [OF assms(2,3), of "h ! audio"] py_slice_backwards [of 0 0 "h ! audio"]
    by (simp add: shift_formants_vowel_def z del: mult_zero_left)
qed








lemma heap_prefix_nth: "take (length h) h' = h \<Longrightarrow> r < length h \<Longrightarrow> h' ! r = h ! r"
  by (metis nth_take)

lemma crossfade_heap_prefix: "take (length h) (snd (crossfade h original shifted fade_length)) = h"
  using crossfade_heap [of h original shifted fade_length] by auto

lemma crossfade_interior:
  assumes "original < length h" and "shifted < length h"
    and "length (h ! shifted) = length (h ! original)"
    and "1 \<le> fade_length" and "2 \<le> length (h ! original)"
    and "nat (min fade_length (int (length (h ! original)) div 2)) \<le> i"
    and "i < length (h ! original) - nat (min fade_length (int (length (h ! original)) div 2))"
  shows "snd (crossfade h original shifted fade_length) ! length h ! i = h ! shifted ! i"
  using assms by (simp add: crossfade_blend blend_interior)

subsection \<open>Evaluations on concrete inputs\<close>

lemmas crossfade_eval = crossfade_def Let_def py_slice_def slice_bounds_def slice_index_def
  np_mul_def np_add_def broadcast2_def set_slice_def store_slice_def and_then_def

lemma hanning_4: "hanning 4 = [0, 3 / 4, 3 / 4, 0]"
  by (simp add: hanning_def arange_def upt_rec cos_60)

lemma crossfade_4_3:
  "crossfade [[1, 2, 3, 4], [5, 6, 7]] 0 1 2
   = (Inr 2, [[1, 2, 3, 4], [5, 6, 7], [3 / 4, 9 / 2, 9 / 2, 3]])"
  by (simp add: crossfade_eval hanning_4)

lemma crossfade_4_4:
  "crossfade [[1, 2, 3, 4], [5, 6, 7, 8]] 0 1 2
   = (Inr 2, [[1, 2, 3, 4], [5, 6, 7, 8], [3 / 4, 9 / 2, 21 / 4, 3]])"
  by (simp add: crossfade_eval hanning_4)

lemma crossfade_aliased:
  "crossfade [[1, 2, 3, 4]] 0 0 2 = (Inr 1, [[1, 2, 3, 4], [3 / 4, 3 / 2, 9 / 4, 3]])"
  by (simp add: crossfade_def Let_def py_slice_def slice_bounds_def slice_index_def
      np_mul_def np_add_def broadcast2_def set_slice_def store_slice_def and_then_def hanning_4)

lemma shift_4_samples:
  "shift_formants_vowel no_rounding single_bin_lib demo_shifter [[1, 2, 3, 4]] 0
     \<lparr>seg_phoneme = [105], seg_start = 0, seg_end = 10\<rparr>
   = (Inr 1, [[1, 2, 3, 4], [1, 2, 3, 4]])"
  by (simp add: shift_formants_vowel_def vowel_shifts_def py_int_def slice_eval Let_def
      stft_def istft_def single_bin_lib_def warp_single_bin [unfolded demo_shifter_def]
      Arg_numeral demo_shifter_def no_rounding_def)

lemma upt_3: "[0..<3] = [0, 1, 2]"
  by (simp add: upt_rec)

lemma bin_freqs_3: "bin_freqs no_rounding demo_shifter 3 = [0, 4000, 8000]"
  by (simp add: bin_freqs_def linspace_def Let_def demo_shifter_def no_rounding_def upt_3)

lemma enum_3: "enumerate 0 [a, b, c] = [(0, a), (1, b), (2, c)]"
  by (simp add: enumerate_eq_zip upt_3 [unfolded numeral_3_eq_3] numeral_3_eq_3 upt_rec)

lemmas warp_eval = warp_magnitude_def bin_freqs_3 [unfolded demo_shifter_def numeral_3_eq_3] enum_3
  warp_bin_exact demo_shifter_def getrow_def Let_def

lemma warp_3_bins_up:
  "warp_magnitude no_rounding demo_shifter [[1], [2], [3]] 2 = Inr [[1], [3 / 2], [3]]"
  by (simp add: warp_eval)




section \<open>The claims\<close>

subsection \<open>C1: segments that are empty or out of range\<close>

text \<open>
  C1 states that \<open>shift_formants_vowel\<close> fails with an InvalidSegment error, and leaves
  the waveform untouched, whenever the sample indices of the segment are empty or out of
  range. The function has no check of the indices and no such error. Taken as stated, the
  claim fails for a waveform of four samples and the segment from 0 s to 10 s at 16 kHz
  (\<open>end_s = 160000\<close>): the slice is clamped to the whole waveform and the function
  returns what the transform pipeline yields, here with the stand-in transform pair.
\<close>

theorem shift_formants_vowel_out_of_range_counterexample:
  "shift_formants_vowel no_rounding single_bin_lib demo_shifter [[1, 2, 3, 4]] 0
     \<lparr>seg_phoneme = [105], seg_start = 0, seg_end = 10\<rparr>
   = (Inr 1, [[1, 2, 3, 4], [1, 2, 3, 4]])"
  by (rule shift_4_samples)

text \<open>
  C1 as amended. For every rounding of the float products, transform pair, shifter, store
  and segment, with the sample indices as the code computes them: the arrays of the
  store are unchanged after the call, whether it returns or raises; a segment whose end
  index is at or beyond the end of the waveform is processed exactly like the segment
  with the same label and start that ends at any other index at or beyond the end (so in
  particular like the one ending at \<open>len(waveform)\<close>); and a segment whose end index is
  not negative and not after its start index is processed exactly like the empty segment
  from 0 to 0, that is, the empty slice is handed to the transform (zero rounds to
  zero).
\<close>

theorem shift_formants_vowel_unvalidated:
  "(\<forall>r<length h. snd (shift_formants_vowel fl lib self h audio phoneme) ! r = h ! r) \<and>
   (int (length (h ! audio)) \<le> py_int (fl (seg_end phoneme * sr self)) \<and>
    int (length (h ! audio)) \<le> py_int (fl (e * sr self)) \<longrightarrow>
      shift_formants_vowel fl lib self h audio (phoneme\<lparr>seg_end := e\<rparr>)
      = shift_formants_vowel fl lib self h audio phoneme) \<and>
   (fl 0 = 0 \<and> 0 \<le> py_int (fl (seg_end phoneme * sr self)) \<and>
    py_int (fl (seg_end phoneme * sr self)) \<le> py_int (fl (seg_start phoneme * sr self)) \<longrightarrow>
      shift_formants_vowel fl lib self h audio phoneme
      = shift_formants_vowel fl lib self h audio (phoneme\<lparr>seg_start := 0, seg_end := 0\<rparr>))"
proof (intro conjI allI impI)
  fix r assume "r < length h"
  then show "snd (shift_formants_vowel fl lib self h audio phoneme) ! r = h ! r"
    by (rule heap_prefix_nth [OF shift_heap])
next
  assume "int (length (h ! audio)) \<le> py_int (fl (seg_end phoneme * sr self)) \<and>
          int (length (h ! audio)) \<le> py_int (fl (e * sr self))"
  then show "shift_formants_vowel fl lib self h audio (phoneme\<lparr>seg_end := e\<rparr>)
             = shift_formants_vowel fl lib self h audio phoneme"
    by (simp add: shift_clamped)
next
  assume "fl 0 = 0 \<and> 0 \<le> py_int (fl (seg_end phoneme * sr self)) \<and>
          py_int (fl (seg_end phoneme * sr self)) \<le> py_int (fl (seg_start phoneme * sr self))"
  then show "shift_formants_vowel fl lib self h audio phoneme
             = shift_formants_vowel fl lib self h audio (phoneme\<lparr>seg_start := 0, seg_end := 0\<rparr>)"
    by (simp add: shift_empty)
qed

theorem shift_formants_vowel_unvalidated_witness:
  "snd (shift_formants_vowel no_rounding single_bin_lib demo_shifter [[1, 2, 3, 4]] 0
          \<lparr>seg_phoneme = [105], seg_start = 0, seg_end = 10\<rparr>) ! 0 = [1, 2, 3, 4] \<and>
   int (length ([[1, 2, 3, 4 :: real]] ! 0)) \<le> py_int (no_rounding (10 * sr demo_shifter)) \<and>
   int (length ([[1, 2, 3, 4 :: real]] ! 0)) \<le> py_int (no_rounding (1 / 4000 * sr demo_shifter)) \<and>
   shift_formants_vowel no_rounding single_bin_lib demo_shifter [[1, 2, 3, 4]] 0
     \<lparr>seg_phoneme = [105], seg_start = 0, seg_end = 1 / 4000\<rparr>
   = shift_formants_vowel no_rounding single_bin_lib demo_shifter [[1, 2, 3, 4]] 0
       \<lparr>seg_phoneme = [105], seg_start = 0, seg_end = 10\<rparr> \<and>
   no_rounding 0 = 0 \<and>
   0 \<le> py_int (no_rounding (1 / 8000 * sr demo_shifter)) \<and>
   py_int (no_rounding (1 / 8000 * sr demo_shifter)) \<le> py_int (no_rounding (1 / 8000 * sr demo_shifter)) \<and>
   shift_formants_vowel no_rounding single_bin_lib demo_shifter [[1, 2, 3, 4]] 0
     \<lparr>seg_phoneme = [105], seg_start = 1 / 8000, seg_end = 1 / 8000\<rparr>
   = shift_formants_vowel no_rounding single_bin_lib demo_shifter [[1, 2, 3, 4]] 0
       \<lparr>seg_phoneme = [105], seg_start = 0, seg_end = 0\<rparr>"
  using shift_formants_vowel_unvalidated [of "[[1, 2, 3, 4]]" no_rounding single_bin_lib demo_shifter 0
      "\<lparr>seg_phoneme = [105], seg_start = 0, seg_end = 10\<rparr>" "1 / 4000"]
    shift_formants_vowel_unvalidated [of "[[1, 2, 3, 4]]" no_rounding single_bin_lib demo_shifter 0
      "\<lparr>seg_phoneme = [105], seg_start = 1 / 8000, seg_end = 1 / 8000\<rparr>" 0]
  by (simp add: py_int_def demo_shifter_def no_rounding_def)

subsection \<open>C2: arrays of different lengths\<close>

text \<open>
  C2 states that \<open>crossfade\<close> fails with a LengthMismatch error whenever the two arrays
  differ in length. The function compares no lengths and has no such error. Taken as
  stated, the claim fails for an original of four samples, a shifted array of three and a
  fade length of two: every slice operation has operands of matching shapes, and a merged
  array of four samples is returned.
\<close>

theorem crossfade_length_mismatch_counterexample:
  "crossfade [[1, 2, 3, 4], [5, 6, 7]] 0 1 2
   = (Inr 2, [[1, 2, 3, 4], [5, 6, 7], [3 / 4, 9 / 2, 9 / 2, 3]])"
  by (rule crossfade_4_3)

text \<open>
  C2 as amended. \<open>crossfade\<close> has no length check of its own. For a fade length that is
  not negative it raises (numpy's ValueError, from a slice assignment or a product whose
  shapes cannot be broadcast) whenever \<open>shifted\<close> is longer than \<open>original\<close> by two
  samples or more; whatever the lengths, the only exception it raises is that ValueError,
  and when it returns, the merged array has the length of \<open>original\<close>.
\<close>

theorem crossfade_unchecked_lengths:
  assumes "original < length h" and "shifted < length h"
  shows "(0 \<le> fade_length \<and> length (h ! original) + 2 \<le> length (h ! shifted) \<longrightarrow>
            fst (crossfade h original shifted fade_length) = Inl ValueError) \<and>
         (\<forall>e. fst (crossfade h original shifted fade_length) = Inl e \<longrightarrow> e = ValueError) \<and>
         (\<forall>r. fst (crossfade h original shifted fade_length) = Inr r \<longrightarrow>
            length (snd (crossfade h original shifted fade_length) ! r) = length (h ! original))"
proof (intro conjI allI impI)
  assume "0 \<le> fade_length \<and> length (h ! original) + 2 \<le> length (h ! shifted)"
  then show "fst (crossfade h original shifted fade_length) = Inl ValueError"
    using crossfade_longer_shifted [OF assms] by simp
next
  fix e assume "fst (crossfade h original shifted fade_length) = Inl e"
  then show "e = ValueError" by (rule crossfade_error)
next
  fix r assume "fst (crossfade h original shifted fade_length) = Inr r"
  then have "r = length h" by (rule crossfade_ref)
  then show "length (snd (crossfade h original shifted fade_length) ! r) = length (h ! original)"
    using crossfade_heap [of h original shifted fade_length] by auto
qed

theorem crossfade_unchecked_lengths_witness:
  "(0::nat) < length [[1, 2], [3, 4, 5, 6 :: real]] \<and> (1::nat) < length [[1, 2], [3, 4, 5, 6 :: real]] \<and>
   (0::int) \<le> 1 \<and>
   length ([[1, 2], [3, 4, 5, 6 :: real]] ! 0) + 2 \<le> length ([[1, 2], [3, 4, 5, 6 :: real]] ! 1) \<and>
   fst (crossfade [[1, 2], [3, 4, 5, 6]] 0 1 1) = Inl ValueError \<and>
   fst (crossfade [[1, 2, 3, 4], [5, 6, 7]] 0 1 2) = Inr 2 \<and>
   length (snd (crossfade [[1, 2, 3, 4], [5, 6, 7]] 0 1 2) ! 2) = length ([[1, 2, 3, 4], [5, 6, 7 :: real]] ! 0)"
  using crossfade_unchecked_lengths [of 0 "[[1, 2], [3, 4, 5, 6]]" 1 1]
    crossfade_unchecked_lengths [of 0 "[[1, 2, 3, 4], [5, 6, 7]]" 1 2]
  by (simp add: crossfade_4_3 [unfolded One_nat_def])

subsection \<open>C3: the interior is the shifted array\<close>

text \<open>
  C3 states that between the two faded edges the output is \<open>shifted\<close>, and in
  particular that a clamped fade length of zero makes the whole output equal \<open>shifted\<close>.
  For a clamped fade length of at least one this is \<open>crossfade_interior\<close> above. For a
  clamped fade length of zero the slice \<open>out[-fade_len:]\<close> is \<open>out[0:]\<close>, the whole
  array, while \<open>fade_out\<close> is empty: for two samples each and a fade length of zero the
  product \<open>shifted[-0:] * fade_out\<close> cannot be broadcast and the call raises ValueError
  instead of returning \<open>shifted\<close>.
\<close>

theorem crossfade_zero_fade_raises:
  "crossfade [[1, 2], [3, 4]] 0 1 0 = (Inl ValueError, [[1, 2], [3, 4], [1, 2]])"
  by (simp add: crossfade_eval hanning_empty)

subsection \<open>C4: the boundary samples\<close>

text \<open>
  C4 states that for a positive fade length the first and the last sample of the output
  equal those of \<open>original\<close>. The window \<open>np.hanning(2 * fade_len)\<close> has an even number
  of points, so its two middle values, which weight the boundary samples of \<open>original\<close>,
  lie beside the peak and are below one. Taken as stated, the claim fails for
  \<open>original = [1, 2, 3, 4]\<close>, \<open>shifted = [5, 6, 7, 8]\<close> and a fade length of two: the
  output is \<open>[0.75, 4.5, 5.25, 3]\<close>.
\<close>

theorem crossfade_boundary_counterexample:
  "fst (crossfade [[1, 2, 3, 4], [5, 6, 7, 8]] 0 1 2) = Inr 2 \<and>
   snd (crossfade [[1, 2, 3, 4], [5, 6, 7, 8]] 0 1 2) ! 2 ! 0 \<noteq> [[1, 2, 3, 4], [5, 6, 7, 8]] ! 0 ! 0 \<and>
   last (snd (crossfade [[1, 2, 3, 4], [5, 6, 7, 8]] 0 1 2) ! 2) \<noteq> last ([[1, 2, 3, 4], [5, 6, 7, 8]] ! 0)"
  by (simp add: crossfade_4_4 [unfolded One_nat_def])

text \<open>
  C4 as amended. For two arrays of one length of at least two samples and a positive fade
  length, with \<open>f\<close> the clamped fade length, \<open>crossfade\<close> returns, and the first and the
  last sample of the output are those of \<open>original\<close> multiplied by
  \<open>c = (1 + cos(pi / (2 f - 1))) / 2\<close>, the value of the window beside its centre, which
  is below one (it is zero for \<open>f = 1\<close>).
\<close>

theorem crossfade_boundary_scaled:
  assumes "original < length h" and "shifted < length h"
    and "length (h ! shifted) = length (h ! original)"
    and "1 \<le> fade_length" and "2 \<le> length (h ! original)"
    and "c = (1 + cos (pi / (2 * real_of_int (min fade_length (int (length (h ! original)) div 2)) - 1))) / 2"
  shows "fst (crossfade h original shifted fade_length) = Inr (length h) \<and>
         snd (crossfade h original shifted fade_length) ! length h ! 0 = h ! original ! 0 * c \<and>
         last (snd (crossfade h original shifted fade_length) ! length h) = last (h ! original) * c \<and>
         c < 1"
proof -
  define F where "F = nat (min fade_length (int (length (h ! original)) div 2))"
  have F: "1 \<le> F" "2 * F \<le> length (h ! original)"
    using assms(4,5) by (simp_all add: F_def)
  have "real_of_int (min fade_length (int (length (h ! original)) div 2)) = real F"
    using assms(4,5) by (simp add: F_def)
  then have c: "c = (1 + cos (pi / (2 * real F - 1))) / 2"
    using assms(6) by simp
  have run: "crossfade h original shifted fade_length
             = (Inr (length h), h @ [blend (h ! original) (h ! shifted) F])"
    unfolding F_def by (rule crossfade_blend [OF assms(1-5)])
  have res: "fst (crossfade h original shifted fade_length) = Inr (length h)"
    and out: "snd (crossfade h original shifted fade_length) ! length h
              = blend (h ! original) (h ! shifted) F"
    by (simp_all add: run)
  show ?thesis
    unfolding out c
    using res blend_first [OF F assms(3)] blend_last [OF F assms(3)] cos_centre_less_one [OF F(1)]
    by blast
qed

theorem crossfade_boundary_scaled_witness:
  "(0::nat) < length [[1, 2, 3, 4], [5, 6, 7, 8 :: real]] \<and> (1::nat) < length [[1, 2, 3, 4], [5, 6, 7, 8 :: real]] \<and>
   length ([[1, 2, 3, 4], [5, 6, 7, 8 :: real]] ! 1) = length ([[1, 2, 3, 4], [5, 6, 7, 8 :: real]] ! 0) \<and>
   (1::int) \<le> 2 \<and> 2 \<le> length ([[1, 2, 3, 4], [5, 6, 7, 8 :: real]] ! 0) \<and>
   fst (crossfade [[1, 2, 3, 4], [5, 6, 7, 8]] 0 1 2) = Inr 2 \<and>
   snd (crossfade [[1, 2, 3, 4], [5, 6, 7, 8]] 0 1 2) ! 2 ! 0 = 1 * (3 / 4) \<and>
   last (snd (crossfade [[1, 2, 3, 4], [5, 6, 7, 8]] 0 1 2) ! 2) = 4 * (3 / 4)"
  using crossfade_boundary_scaled [of 0 "[[1, 2, 3, 4], [5, 6, 7, 8]]" 1 2 "3 / 4"]
  by (simp add: cos_60 numeral_2_eq_2)

subsection \<open>C5: bins above the cutoff pass through\<close>

text \<open>
  C5: whenever \<open>warp_magnitude\<close> returns, every row \<open>i\<close> whose centre frequency is
  strictly above \<open>max_freq\<close> equals row \<open>i\<close> of the input, for every matrix, every
  \<open>alpha\<close> and every rounding of the float operations. The centre frequency is the one
  that the loop receives and compares, \<open>freqs[i]\<close> of \<open>np.linspace(0, sr / 2, n_bins)\<close>;
  in exact arithmetic it is \<open>i * sr / 2 / (n_bins - 1)\<close> (\<open>bin_freqs_exact_nth\<close>).
\<close>

theorem warp_magnitude_passthrough:
  assumes "warp_magnitude fl self mag alpha = Inr out" and "i < length mag"
    and "max_freq self < bin_freqs fl self (length mag) ! i"
  shows "out ! i = mag ! i"
proof -
  from warp_magnitude_bin [OF assms(1,2)] obtain r
    where r: "warp_bin fl self mag alpha (length mag) i (bin_freqs fl self (length mag) ! i) = Inr r"
      and o: "out ! i = (case r of None \<Rightarrow> replicate (length (hd mag)) 0 | Some row \<Rightarrow> row)"
    by blast
  from r assms(3) have "r = Some (mag ! i)"
    by (simp add: warp_bin_def)
  with o show ?thesis by simp
qed

theorem warp_magnitude_passthrough_witness:
  "warp_magnitude no_rounding demo_shifter [[1], [2], [3]] 2 = Inr [[1], [3 / 2], [3]] \<and>
   (2::nat) < length [[1::real], [2], [3]] \<and>
   max_freq demo_shifter < bin_freqs no_rounding demo_shifter (length [[1::real], [2], [3]]) ! 2 \<and>
   [[1], [3 / 2], [3::real]] ! 2 = [[1], [2], [3]] ! 2"
  using warp_magnitude_passthrough [of no_rounding demo_shifter "[[1], [2], [3]]" 2 "[[1], [3 / 2], [3]]" 2]
  by (simp add: warp_3_bins_up bin_freqs_3 [unfolded numeral_3_eq_3]) (simp add: demo_shifter_def)

subsection \<open>C6: no energy from outside the band\<close>



subsection \<open>C7: alpha = 1 is the identity\<close>

text \<open>
  C7: with \<open>alpha = 1\<close> the function \<open>warp_magnitude\<close> returns its input, for every
  rectangular matrix and every positive sample rate. In exact arithmetic the fractional
  source index of bin \<open>i\<close> is \<open>i\<close> itself and the interpolation weight is zero, so the
  identity is exact; the rounding of the floating-point code, which the claim allows
  for by its tolerance, is left out here (\<open>no_rounding\<close>).
\<close>

theorem warp_magnitude_identity:
  assumes sr: "0 < sr self" and rect: "\<forall>row\<in>set mag. length row = n_frames"
  shows "warp_magnitude no_rounding self mag 1 = Inr mag"
proof -
  define freqs where "freqs = bin_freqs no_rounding self (length mag)"
  have bin: "\<exists>r. warp_bin no_rounding self mag 1 (length mag) i f = Inr r"
    if "(i, f) \<in> set (enumerate 0 freqs)" for i f
  proof -
    from that have "i < length mag" "f = real i * (sr self / 2) / real (length mag - 1)"
      by (auto simp add: in_set_enumerate_eq freqs_def length_bin_freqs bin_freqs_exact_nth)
    with warp_bin_identity [OF sr rect] show ?thesis by blast
  qed
  from warp_loop_total [of "enumerate 0 freqs" no_rounding self mag 1 "length mag", OF bin]
  obtain out where out: "warp_magnitude no_rounding self mag 1 = Inr out"
    unfolding warp_magnitude_def Let_def freqs_def by blast
  have "out = mag"
  proof (rule nth_equalityI)
    show "length out = length mag" by (rule length_warp_magnitude [OF out])
  next
    fix i assume "i < length out"
    then have i: "i < length mag" by (simp add: length_warp_magnitude [OF out])
    from warp_magnitude_bin [OF out i] warp_bin_identity [OF sr rect i]
    show "out ! i = mag ! i" by (simp add: bin_freqs_exact_nth [OF i])
  qed
  with out show ?thesis by simp
qed

theorem warp_magnitude_identity_witness:
  "0 < sr demo_shifter \<and>
   length [1, 10 :: real] = 2 \<and> length [2, 20 :: real] = 2 \<and> length [3, 30 :: real] = 2 \<and>
   warp_magnitude no_rounding demo_shifter [[1, 10], [2, 20], [3, 30]] 1
   = Inr [[1, 10], [2, 20], [3, 30]]"
  using warp_magnitude_identity [of demo_shifter "[[1, 10], [2, 20], [3, 30]]" 2]
  by (simp add: demo_shifter_def)

subsection \<open>C8: fade lengths beyond half the array\<close>

text \<open>
  C8 states that \<open>crossfade\<close> clamps the fade length to half the length of the input and
  never raises. The clamping is there, but for an input of a single sample the clamped
  fade length is zero, and then (as for C3) \<open>out[-fade_len:]\<close> is the whole array while
  the window is empty: with one sample each and a fade length of five the call raises
  ValueError.
\<close>

theorem crossfade_single_sample_raises:
  "crossfade [[1], [2]] 0 1 5 = (Inl ValueError, [[1], [2], [1]])"
  by (simp add: crossfade_eval hanning_empty)

subsection \<open>C9: the round trip through the transform\<close>



subsection \<open>C10: the arguments are not written\<close>

text \<open>
  C10: neither \<open>crossfade\<close> nor \<open>shift_formants_vowel\<close> writes into an array that
  exists before the call. Whether the call returns or raises, every array of the store
  has its contents from before the call, also when \<open>original\<close> and \<open>shifted\<close> are one
  and the same array, and a returned reference is that of a newly allocated array.
\<close>

theorem no_argument_mutation:
  "(\<forall>r<length h. snd (crossfade h original shifted fade_length) ! r = h ! r) \<and>
   (\<forall>r. fst (crossfade h original shifted fade_length) = Inr r \<longrightarrow> r = length h) \<and>
   (\<forall>r<length h. snd (shift_formants_vowel fl lib self h audio phoneme) ! r = h ! r) \<and>
   (\<forall>r. fst (shift_formants_vowel fl lib self h audio phoneme) = Inr r \<longrightarrow> r = length h)"
proof (intro conjI allI impI)
  fix r assume "r < length h"
  then show "snd (crossfade h original shifted fade_length) ! r = h ! r"
    by (rule heap_prefix_nth [OF crossfade_heap_prefix])
next
  fix r assume "fst (crossfade h original shifted fade_length) = Inr r"
  then show "r = length h" by (rule crossfade_ref)
next
  fix r assume "r < length h"
  then show "snd (shift_formants_vowel fl lib self h audio phoneme) ! r = h ! r"
    by (rule heap_prefix_nth [OF shift_heap])
next
  fix r assume "fst (shift_formants_vowel fl lib self h audio phoneme) = Inr r"
  then show "r = length h" by (rule shift_ref)
qed

theorem no_argument_mutation_witness:
  "(0::nat) < length [[1, 2, 3, 4 :: real]] \<and>
   fst (crossfade [[1, 2, 3, 4]] 0 0 2) = Inr 1 \<and>
   snd (crossfade [[1, 2, 3, 4]] 0 0 2) ! 0 = [[1, 2, 3, 4]] ! 0 \<and>
   fst (shift_formants_vowel no_rounding single_bin_lib demo_shifter [[1, 2, 3, 4]] 0
          \<lparr>seg_phoneme = [105], seg_start = 0, seg_end = 10\<rparr>) = Inr 1 \<and>
   snd (shift_formants_vowel no_rounding single_bin_lib demo_shifter [[1, 2, 3, 4]] 0
          \<lparr>seg_phoneme = [105], seg_start = 0, seg_end = 10\<rparr>) ! 0 = [[1, 2, 3, 4]] ! 0"
  using no_argument_mutation [of "[[1, 2, 3, 4]]" 0 0 2 no_rounding single_bin_lib demo_shifter 0
      "\<lparr>seg_phoneme = [105], seg_start = 0, seg_end = 10\<rparr>"]
  by (simp add: crossfade_aliased shift_4_samples)

end
